theory Spec2Isabelle
  imports Main "HOL-Library.Char_ord" "HOL-Library.List_Lexorder"
begin

section \<open>The transfer-chain transaction handler (processor/handlers.js)\<close>

text \<open>
  The handler is a Sawtooth transaction family: \<open>apply\<close> receives a transaction and a
  state context and runs one of five rules. Each rule reads some addresses, checks
  them, and issues one \<open>state.set\<close>.

  Conventions of the embedding:
  \<^item> JavaScript strings are \<open>string\<close>s; the default \<open>Array.prototype.sort\<close> compares
    strings code unit by code unit, which is the lexicographic order on \<open>char list\<close>.
  \<^item> A \<open>Buffer\<close> is represented by the text it holds in UTF-8. For well-formed text
    \<open>Buffer.from\<close> and \<open>toString\<close> are inverse to each other and the empty text is the
    only one of length zero, so both are the identity here.
  \<^item> A JavaScript object is an association list in insertion order; a well-formed one has
    distinct keys. The values that occur are strings and \<open>undefined\<close>.
  \<^item> \<open>createHash('sha512').update(key).digest('hex')\<close> is a library function; every
    definition that hashes takes it as the parameter \<open>H\<close>.
  \<^item> A thrown exception (a rejected promise) is the \<open>Inl\<close> of a sum.
\<close>

subsection \<open>Values and errors\<close>

datatype jsval = Undefined | Str string

type_synonym object = "(string \<times> jsval) list"

type_synonym address = string

type_synonym buffer = string

datatype error = InvalidTransaction string | TypeError | SyntaxError

text \<open>Property access \<open>obj.k\<close>: the own property, or \<open>undefined\<close>.\<close>

definition get_prop :: "object \<Rightarrow> string \<Rightarrow> jsval" where
  "get_prop obj k = (case map_of obj k of None \<Rightarrow> Undefined | Some v \<Rightarrow> v)"

text \<open>Defining a property keeps the position of a key that is already there.\<close>

fun obj_put :: "object \<Rightarrow> string \<Rightarrow> jsval \<Rightarrow> object" where
  "obj_put [] k v = [(k, v)]"
| "obj_put (p # ps) k v = (if fst p = k then (k, v) # ps else p # obj_put ps k v)"

definition Object_keys :: "object \<Rightarrow> string list" where
  "Object_keys obj = map fst obj"

subsection \<open>Addresses\<close>

text \<open>\<open>getAddress(key, length)\<close>: the first \<open>length\<close> hex digits of the digest.\<close>

definition getAddress :: "(string \<Rightarrow> string) \<Rightarrow> string \<Rightarrow> nat \<Rightarrow> address" where
  "getAddress H key len = take len (H key)"

definition FAMILY :: string where
  "FAMILY = ''transfer-chain''"

definition PREFIX :: "(string \<Rightarrow> string) \<Rightarrow> string" where
  "PREFIX H = getAddress H FAMILY 6"

definition getAssetAddress :: "(string \<Rightarrow> string) \<Rightarrow> string \<Rightarrow> address" where
  "getAssetAddress H name = PREFIX H @ ''00'' @ getAddress H name 62"

definition getTransferAddress :: "(string \<Rightarrow> string) \<Rightarrow> string \<Rightarrow> address" where
  "getTransferAddress H asset = PREFIX H @ ''10'' @ getAddress H asset 62"

definition getTransferAcknAddress :: "(string \<Rightarrow> string) \<Rightarrow> string \<Rightarrow> address" where
  "getTransferAcknAddress H asset = PREFIX H @ ''11'' @ getAddress H asset 62"

definition getTransferApproveAddress :: "(string \<Rightarrow> string) \<Rightarrow> string \<Rightarrow> address" where
  "getTransferApproveAddress H asset = PREFIX H @ ''12'' @ getAddress H asset 62"

definition getRegulatorAddress :: "(string \<Rightarrow> string) \<Rightarrow> string \<Rightarrow> address" where
  "getRegulatorAddress H asset = PREFIX H @ ''20'' @ getAddress H asset 62"

definition getParticipantAddress :: "(string \<Rightarrow> string) \<Rightarrow> string \<Rightarrow> address" where
  "getParticipantAddress H asset = PREFIX H @ ''21'' @ getAddress H asset 62"

subsection \<open>JSON.stringify with a replacer array\<close>

definition dquote :: char where
  "dquote = CHR 0x22"

definition bslash :: char where
  "bslash = CHR 0x5C"

definition hex_digit :: "nat \<Rightarrow> char" where
  "hex_digit n = ''0123456789abcdef'' ! (n mod 16)"

text \<open>
  QuoteJSONString: the two-character escapes, \<open>\u00XX\<close> for the other control characters,
  every other character as it is.
\<close>

definition quote_char :: "char \<Rightarrow> string" where
  "quote_char c =
     (if c = CHR 0x08 then [bslash, CHR ''b'']
      else if c = CHR 0x09 then [bslash, CHR ''t'']
      else if c = CHR 0x0A then [bslash, CHR ''n'']
      else if c = CHR 0x0C then [bslash, CHR ''f'']
      else if c = CHR 0x0D then [bslash, CHR ''r'']
      else if c = dquote then [bslash, dquote]
      else if c = bslash then [bslash, bslash]
      else if (of_char c :: nat) < 0x20 then
        [bslash, CHR ''u'', CHR ''0'', CHR ''0'',
         hex_digit (of_char c div 16), hex_digit (of_char c mod 16)]
      else [c])"

definition quote_chars :: "string \<Rightarrow> string" where
  "quote_chars s = concat (map quote_char s)"

definition quote :: "string \<Rightarrow> string" where
  "quote s = dquote # quote_chars s @ [dquote]"

text \<open>
  The property list of a replacer array keeps the first occurrence of each name. A
  property whose value is \<open>undefined\<close>, or that the object does not have, is left out.
\<close>

definition property_list :: "string list \<Rightarrow> string list" where
  "property_list ks = rev (remdups (rev ks))"

fun serialize_members :: "object \<Rightarrow> string list \<Rightarrow> string list" where
  "serialize_members obj [] = []"
| "serialize_members obj (k # ks) =
     (case get_prop obj k of
        Undefined \<Rightarrow> serialize_members obj ks
      | Str v \<Rightarrow> (quote k @ CHR '':'' # quote v) # serialize_members obj ks)"

fun join_comma :: "string list \<Rightarrow> string" where
  "join_comma [] = []"
| "join_comma [m] = m"
| "join_comma (m # ms) = m @ CHR '','' # join_comma ms"

definition JSON_stringify :: "object \<Rightarrow> string list \<Rightarrow> string" where
  "JSON_stringify obj replacer =
     CHR ''{'' # join_comma (serialize_members obj (property_list replacer)) @ ''}''"

subsection \<open>JSON.parse\<close>

text \<open>
  The records of this application are objects whose members are strings, and the parser
  covers that grammar: white space, the string escapes, duplicate names (the last value
  wins). A text with any other value (a number, a literal, an array, a nested object) or
  with a \<open>\u\<close> escape beyond the 8-bit code units of \<open>char\<close> is outside the model and is
  reported as a syntax error.
\<close>

definition is_ws :: "char \<Rightarrow> bool" where
  "is_ws c = (c = CHR '' '' \<or> c = CHR 0x09 \<or> c = CHR 0x0A \<or> c = CHR 0x0D)"

definition skip_ws :: "string \<Rightarrow> string" where
  "skip_ws s = dropWhile is_ws s"

definition hex_val :: "char \<Rightarrow> nat option" where
  "hex_val c =
     (let n = (of_char c :: nat) in
      if 0x30 \<le> n \<and> n \<le> 0x39 then Some (n - 0x30)
      else if 0x61 \<le> n \<and> n \<le> 0x66 then Some (n - 0x61 + 10)
      else if 0x41 \<le> n \<and> n \<le> 0x46 then Some (n - 0x41 + 10)
      else None)"

definition hex4 :: "char \<Rightarrow> char \<Rightarrow> char \<Rightarrow> char \<Rightarrow> nat option" where
  "hex4 a b c d =
     (case (hex_val a, hex_val b, hex_val c, hex_val d) of
        (Some w, Some x, Some y, Some z) \<Rightarrow> Some (((w * 16 + x) * 16 + y) * 16 + z)
      | _ \<Rightarrow> None)"

definition unescape :: "char \<Rightarrow> char option" where
  "unescape e =
     (if e = dquote then Some dquote
      else if e = bslash then Some bslash
      else if e = CHR ''/'' then Some (CHR ''/'')
      else if e = CHR ''b'' then Some (CHR 0x08)
      else if e = CHR ''f'' then Some (CHR 0x0C)
      else if e = CHR ''n'' then Some (CHR 0x0A)
      else if e = CHR ''r'' then Some (CHR 0x0D)
      else if e = CHR ''t'' then Some (CHR 0x09)
      else None)"

definition cons_result :: "char \<Rightarrow> (string \<times> string) option \<Rightarrow> (string \<times> string) option" where
  "cons_result c r = (case r of None \<Rightarrow> None | Some (s, rest) \<Rightarrow> Some (c # s, rest))"

text \<open>
  The characters of a string after its opening quote, up to the closing one: the decoded
  string and the text that follows.
\<close>

fun parse_chars :: "string \<Rightarrow> (string \<times> string) option" where
  "parse_chars [] = None"
| "parse_chars (c # cs) =
     (if c = dquote then Some ([], cs)
      else if c = bslash then
        (case cs of
           [] \<Rightarrow> None
         | e # es \<Rightarrow>
             if e = CHR ''u'' then
               (case es of
                  h1 # h2 # h3 # h4 # rest \<Rightarrow>
                    (case hex4 h1 h2 h3 h4 of
                       None \<Rightarrow> None
                     | Some n \<Rightarrow>
                         if n < 256 then cons_result (char_of n) (parse_chars rest) else None)
                | _ \<Rightarrow> None)
             else
               (case unescape e of
                  None \<Rightarrow> None
                | Some d \<Rightarrow> cons_result d (parse_chars es)))
      else if (of_char c :: nat) < 0x20 then None
      else cons_result c (parse_chars cs))"

definition parse_string :: "string \<Rightarrow> (string \<times> string) option" where
  "parse_string s = (case s of [] \<Rightarrow> None | c # cs \<Rightarrow> if c = dquote then parse_chars cs else None)"

text \<open>One member \<open>"name" : "value"\<close> with the white space around its tokens.\<close>

definition parse_member :: "string \<Rightarrow> ((string \<times> string) \<times> string) option" where
  "parse_member s =
     (case parse_string (skip_ws s) of
        None \<Rightarrow> None
      | Some (k, r1) \<Rightarrow>
          (case skip_ws r1 of
             [] \<Rightarrow> None
           | c # r2 \<Rightarrow>
               if c = CHR '':'' then
                 (case parse_string (skip_ws r2) of
                    None \<Rightarrow> None
                  | Some (v, r3) \<Rightarrow> Some ((k, v), skip_ws r3))
               else None))"

text \<open>
  The members after the opening brace, each followed by a comma (another member must
  follow) or by the closing brace.
\<close>

function parse_members :: "object \<Rightarrow> string \<Rightarrow> (object \<times> string) option" where
  "parse_members acc s =
     (case parse_member s of
        None \<Rightarrow> None
      | Some ((k, v), r) \<Rightarrow>
          (case r of
             [] \<Rightarrow> None
           | c # r' \<Rightarrow>
               if c = CHR '','' then parse_members (obj_put acc k (Str v)) r'
               else if c = CHR ''}'' then Some (obj_put acc k (Str v), r')
               else None))"
  by pat_completeness auto
termination
proof -
  have chars: "parse_chars s = Some (v, r) \<Longrightarrow> length r < length s" for s v r
  proof (induction s arbitrary: v r rule: parse_chars.induct)
    case 1
    then show ?case by simp
  next
    case (2 c cs)
    show ?case
      using "2.prems" "2.IH"
      by (fastforce simp: cons_result_def split: if_splits list.splits option.splits)
  qed
  have ws: "length (skip_ws s) \<le> length s" for s
    by (simp add: skip_ws_def length_dropWhile_le)
  have str: "parse_string s = Some (v, r) \<Longrightarrow> length r < length s" for s v r
    by (auto simp: parse_string_def split: list.splits if_splits dest!: chars)
  have member: "parse_member s = Some (m, r) \<Longrightarrow> length r < length s" for s m r
    unfolding parse_member_def
    apply (auto split: option.splits list.splits if_splits dest!: str)
    subgoal for k r1 r2 v r3
      using ws[of s] ws[of r1] ws[of r2] ws[of r3] by simp
    done
  show ?thesis
    by (relation "measure (\<lambda>(acc, s). length s)") (auto dest!: member)
qed

declare parse_members.simps [simp del]

definition JSON_parse :: "string \<Rightarrow> error + object" where
  "JSON_parse text =
     (case skip_ws text of
        [] \<Rightarrow> Inl SyntaxError
      | c # r \<Rightarrow>
          if c = CHR ''{'' then
            (case (case skip_ws r of
                     [] \<Rightarrow> None
                   | d # r' \<Rightarrow> if d = CHR ''}'' then Some ([], r') else parse_members [] r) of
               None \<Rightarrow> Inl SyntaxError
             | Some (obj, rest) \<Rightarrow> if skip_ws rest = [] then Inr obj else Inl SyntaxError)
          else Inl SyntaxError)"

subsection \<open>encode and decode\<close>

definition Buffer_from :: "string \<Rightarrow> buffer" where
  "Buffer_from s = s"

definition toString :: "buffer \<Rightarrow> string" where
  "toString buf = buf"

text \<open>\<open>encode = obj => Buffer.from(JSON.stringify(obj, Object.keys(obj).sort()))\<close>\<close>

definition encode :: "object \<Rightarrow> buffer" where
  "encode obj = Buffer_from (JSON_stringify obj (sort (Object_keys obj)))"

text \<open>
  \<open>decode = buf => JSON.parse(buf.toString())\<close>; an entry that the read did not return is
  \<open>undefined\<close>, and calling \<open>toString\<close> on it throws a TypeError.
\<close>

definition decode :: "buffer option \<Rightarrow> error + object" where
  "decode buf = (case buf of None \<Rightarrow> Inl TypeError | Some b \<Rightarrow> JSON_parse (toString b))"

subsection \<open>The state context\<close>

text \<open>
  The context of the validator: the ledger's key-value store, and the log of the entries
  that \<open>state.set\<close> calls have written. \<open>state.get\<close> returns a mapping that holds entries
  for the requested addresses only; \<open>state.set\<close> stores every entry of its argument and
  returns the addresses.
\<close>

record Context =
  store :: "address \<rightharpoonup> buffer"
  written :: "(address \<times> buffer) list"

definition state_get :: "address list \<Rightarrow> Context \<Rightarrow> (address \<rightharpoonup> buffer)" where
  "state_get addresses state = store state |` set addresses"

definition put_entry :: "address \<times> buffer \<Rightarrow> (address \<rightharpoonup> buffer) \<Rightarrow> (address \<rightharpoonup> buffer)" where
  "put_entry e m = m(fst e \<mapsto> snd e)"

definition state_set ::
  "(address \<times> buffer) list \<Rightarrow> Context \<Rightarrow> (error + address list) \<times> Context" where
  "state_set entries state =
     (Inr (map fst entries),
      state\<lparr>store := fold put_entry entries (store state),
            written := written state @ entries\<rparr>)"

text \<open>\<open>entry && entry.length > 0\<close>: a Buffer is truthy whatever its length.\<close>

definition present :: "buffer option \<Rightarrow> bool" where
  "present entry = (case entry of None \<Rightarrow> False | Some b \<Rightarrow> length b > 0)"

subsection \<open>The five rules\<close>

type_synonym outcome = "(error + address list) \<times> Context"

definition createAsset ::
  "(string \<Rightarrow> string) \<Rightarrow> string \<Rightarrow> string \<Rightarrow> Context \<Rightarrow> outcome" where
  "createAsset H asset owner state =
     (let address = getAssetAddress H asset;
          entries = state_get [address] state;
          entry = entries address
      in if present entry then (Inl (InvalidTransaction ''Asset name in use''), state)
         else state_set [(address, encode [(''name'', Str asset), (''owner'', Str owner)])] state)"

definition transferAsset ::
  "(string \<Rightarrow> string) \<Rightarrow> string \<Rightarrow> jsval \<Rightarrow> string \<Rightarrow> Context \<Rightarrow> outcome" where
  "transferAsset H asset owner signer state =
     (let address = getTransferAddress H asset;
          acknAddress = getTransferAcknAddress H asset;
          assetAddress = getAssetAddress H asset;
          entries = state_get [assetAddress] state;
          entry = entries assetAddress
      in if \<not> present entry then (Inl (InvalidTransaction ''Asset does not exist''), state)
         else
           (case decode entry of
              Inl e \<Rightarrow> (Inl e, state)
            | Inr r \<Rightarrow>
                if Str signer \<noteq> get_prop r ''owner'' then
                  (Inl (InvalidTransaction ''Only an Asset's owner may transfer it''), state)
                else state_set [(acknAddress, encode [(''asset'', Str asset), (''owner'', owner)])] state))"

definition acknowledgeTransfer ::
  "(string \<Rightarrow> string) \<Rightarrow> string \<Rightarrow> string \<Rightarrow> Context \<Rightarrow> outcome" where
  "acknowledgeTransfer H asset signer state =
     (let acknAddress = getTransferAcknAddress H asset;
          address = getTransferAddress H asset;
          entries = state_get [acknAddress] state;
          entry = entries acknAddress
      in if \<not> present entry then
           (Inl (InvalidTransaction ''Asset is not being transfered''), state)
         else
           (case decode entry of
              Inl e \<Rightarrow> (Inl e, state)
            | Inr r \<Rightarrow>
                if Str signer \<noteq> get_prop r ''owner'' then
                  (Inl (InvalidTransaction
                     ''Transfers can only be acknowledged by the new buyer''), state)
                else
                  state_set
                    [(acknAddress, []),
                     (getTransferApproveAddress H asset,
                      encode [(''name'', Str asset), (''owner'', Str signer)])] state))"

definition acceptTransfer ::
  "(string \<Rightarrow> string) \<Rightarrow> string \<Rightarrow> string \<Rightarrow> Context \<Rightarrow> outcome" where
  "acceptTransfer H asset signer state =
     (let acknAddress = getTransferAcknAddress H asset;
          address = getTransferAddress H asset;
          entries = state_get [acknAddress] state;
          entry = entries address;
          regularEntry = entries (getRegulatorAddress H signer)
      in if \<not> present entry then
           (Inl (InvalidTransaction ''Asset is not being transfered''), state)
         else if \<not> present regularEntry then
           (Inl (InvalidTransaction ''You are not a regulator''), state)
         else
           state_set
             [(address, encode [(''name'', Str asset), (''owner'', Str signer)]),
              (getTransferApproveAddress H asset, [])] state)"

definition rejectTransfer ::
  "(string \<Rightarrow> string) \<Rightarrow> string \<Rightarrow> string \<Rightarrow> Context \<Rightarrow> outcome" where
  "rejectTransfer H asset signer state =
     (let address = getTransferAddress H asset;
          entries = state_get [address] state;
          entry = entries address
      in case decode entry of
           Inl e \<Rightarrow> (Inl e, state)
         | Inr r \<Rightarrow>
             if Str signer \<noteq> get_prop r ''owner'' then
               (Inl (InvalidTransaction
                  ''Transfers can only be rejected by the potential new owner''), state)
             else state_set [(address, [])] state)"

subsection \<open>Dispatch\<close>

text \<open>
  A transaction as \<open>apply\<close> sees it once the header and the payload are decoded: the
  signer's public key and the payload's \<open>action\<close>, \<open>asset\<close> and (possibly missing)
  \<open>owner\<close>.
\<close>

record txn =
  signerPubkey :: string
  payload_action :: string
  payload_asset :: string
  payload_owner :: jsval

definition invalid_action_message :: string where
  "invalid_action_message =
     ''Action must be '' @ quote ''create'' @ '', '' @ quote ''transfer'' @ '', ''
       @ quote ''acknowledge'' @ '', '' @ quote ''accept'' @ '', or '' @ quote ''reject''"

definition JSONHandler_apply :: "(string \<Rightarrow> string) \<Rightarrow> txn \<Rightarrow> Context \<Rightarrow> outcome" where
  "JSONHandler_apply H t state =
     (let signer = signerPubkey t in
      if payload_action t = ''create'' then createAsset H (payload_asset t) signer state
      else if payload_action t = ''transfer'' then
        transferAsset H (payload_asset t) (payload_owner t) signer state
      else if payload_action t = ''acknowledge'' then
        acknowledgeTransfer H (payload_asset t) signer state
      else if payload_action t = ''accept'' then acceptTransfer H (payload_asset t) signer state
      else if payload_action t = ''reject'' then rejectTransfer H (payload_asset t) signer state
      else (Inl (InvalidTransaction invalid_action_message), state))"

text \<open>
  The ledger after a list of transactions, from the empty one. A transaction that fails
  leaves the context as its rule returned it.
\<close>

definition empty_context :: Context where
  "empty_context = \<lparr>store = Map.empty, written = []\<rparr>"

fun run :: "(string \<Rightarrow> string) \<Rightarrow> txn list \<Rightarrow> Context \<Rightarrow> Context" where
  "run H [] state = state"
| "run H (t # ts) state = run H ts (snd (JSONHandler_apply H t state))"

subsection \<open>Notions for the proofs\<close>

text \<open>
  The text of one member, the string-valued properties that a property list selects, and
  the step of the parser's loop, named for the proofs.
\<close>

definition member_text :: "string \<times> string \<Rightarrow> string" where
  "member_text m = quote (fst m) @ CHR '':'' # quote (snd m)"

fun str_props :: "object \<Rightarrow> string list \<Rightarrow> (string \<times> string) list" where
  "str_props obj [] = []"
| "str_props obj (k # ks) =
     (case get_prop obj k of
        Undefined \<Rightarrow> str_props obj ks
      | Str v \<Rightarrow> (k, v) # str_props obj ks)"

definition put_member :: "string \<times> string \<Rightarrow> object \<Rightarrow> object" where
  "put_member m acc = obj_put acc (fst m) (Str (snd m))"

text \<open>The object that parsing returns for \<open>encode r\<close>: the string-valued fields, by name.\<close>

definition canonical :: "object \<Rightarrow> object" where
  "canonical r = map (\<lambda>m. (fst m, Str (snd m))) (str_props r (sorted_list_of_set (fst ` set r)))"

section \<open>The codec\<close>

subsection \<open>Strings survive quoting and parsing\<close>

lemma hex_val_hex_digit: "n < 16 \<Longrightarrow> hex_val (hex_digit n) = Some n"
proof -
  assume "n < 16"
  then have "n \<in> {0, 1, 2, 3, 4, 5, 6, 7, 8, 9, 10, 11, 12, 13, 14, 15}" by (simp, arith)
  then show ?thesis
    by (auto simp: hex_val_def hex_digit_def)
qed

lemma hex4_control:
  assumes "n < 32"
  shows "hex4 (CHR ''0'') (CHR ''0'') (hex_digit (n div 16)) (hex_digit (n mod 16)) = Some n"
proof -
  have a: "hex_val (hex_digit (n div 16)) = Some (n div 16)"
    using assms by (intro hex_val_hex_digit) simp
  have b: "hex_val (hex_digit (n mod 16)) = Some (n mod 16)"
    by (intro hex_val_hex_digit) simp
  have z: "hex_val (CHR ''0'') = Some 0" by (simp add: hex_val_def)
  show ?thesis by (simp add: hex4_def a b z)
qed

lemma parse_chars_quote_char:
  "parse_chars (quote_char c @ rest) = cons_result c (parse_chars rest)"
proof -
  consider (b) "c = CHR 0x08" | (t) "c = CHR 0x09" | (n) "c = CHR 0x0A" | (f) "c = CHR 0x0C"
    | (r) "c = CHR 0x0D" | (q) "c = dquote" | (s) "c = bslash"
    | (ctl) "c \<notin> {CHR 0x08, CHR 0x09, CHR 0x0A, CHR 0x0C, CHR 0x0D, dquote, bslash}"
        "(of_char c :: nat) < 0x20"
    | (plain) "c \<notin> {CHR 0x08, CHR 0x09, CHR 0x0A, CHR 0x0C, CHR 0x0D, dquote, bslash}"
        "\<not> (of_char c :: nat) < 0x20"
    by auto
  then show ?thesis
  proof cases
    case ctl
    have h: "hex4 (CHR ''0'') (CHR ''0'') (hex_digit (of_char c div 16)) (hex_digit (of_char c mod 16))
        = Some (of_char c)"
      using ctl(2) by (intro hex4_control) simp
    have q: "quote_char c = [bslash, CHR ''u'', CHR ''0'', CHR ''0'',
         hex_digit (of_char c div 16), hex_digit (of_char c mod 16)]"
      using ctl by (simp add: quote_char_def)
    have lt: "(of_char c :: nat) < 256" using ctl(2) by simp
    show ?thesis
      by (simp add: q h lt bslash_def dquote_def)
  qed (simp_all add: quote_char_def unescape_def bslash_def dquote_def)
qed

lemma parse_chars_quote_chars:
  "parse_chars (quote_chars s @ dquote # rest) = Some (s, rest)"
proof (induction s)
  case Nil
  show ?case by (simp add: quote_chars_def)
next
  case (Cons c s)
  have "quote_chars (c # s) @ dquote # rest = quote_char c @ (quote_chars s @ dquote # rest)"
    by (simp add: quote_chars_def)
  then show ?case
    using Cons.IH by (simp add: parse_chars_quote_char cons_result_def)
qed

lemma parse_string_quote: "parse_string (quote s @ rest) = Some (s, rest)"
  by (simp add: parse_string_def quote_def parse_chars_quote_chars)

subsection \<open>Objects survive stringify and parse\<close>

lemma serialize_members_str_props:
  "serialize_members obj ks = map member_text (str_props obj ks)"
  by (induction ks) (auto simp: member_text_def split: jsval.splits)

lemma skip_ws_no_ws: "\<not> is_ws c \<Longrightarrow> skip_ws (c # s) = c # s"
  by (simp add: skip_ws_def)

lemma not_ws_tokens:
  "\<not> is_ws dquote" "\<not> is_ws (CHR '':'')" "\<not> is_ws (CHR '','')" "\<not> is_ws (CHR ''}'')"
  by (simp_all add: is_ws_def dquote_def)

lemma skip_ws_quote: "skip_ws (quote s @ rest) = quote s @ rest"
  by (simp add: quote_def skip_ws_no_ws not_ws_tokens)

lemma parse_member_text:
  "parse_member (member_text m @ rest) = Some (m, skip_ws rest)"
proof -
  have a: "parse_string (skip_ws (member_text m @ rest))
      = Some (fst m, CHR '':'' # quote (snd m) @ rest)"
    using parse_string_quote[of "fst m" "CHR '':'' # quote (snd m) @ rest"]
    by (simp add: member_text_def quote_def skip_ws_no_ws not_ws_tokens)
  have b: "parse_string (skip_ws (quote (snd m) @ rest)) = Some (snd m, rest)"
    by (simp add: skip_ws_quote parse_string_quote)
  show ?thesis
    unfolding parse_member_def a
    by (simp add: skip_ws_no_ws not_ws_tokens b)
qed

lemma parse_members_join:
  "parse_members acc (join_comma (map member_text (m # ms)) @ CHR ''}'' # rest)
     = Some (fold put_member (m # ms) acc, rest)"
proof (induction ms arbitrary: m acc)
  case Nil
  obtain k v where m: "m = (k, v)" by (cases m)
  have pm: "put_member (k, v) acc = obj_put acc k (Str v)" by (simp add: put_member_def)
  show ?case
    unfolding m
    by (subst parse_members.simps)
       (simp add: parse_member_text[of "(k, v)" "CHR ''}'' # rest", simplified]
          skip_ws_no_ws not_ws_tokens pm)
next
  case (Cons m' ms)
  obtain k v where m: "m = (k, v)" by (cases m)
  have pm: "obj_put acc k (Str v) = put_member (k, v) acc" by (simp add: put_member_def)
  have t: "join_comma (map member_text ((k, v) # m' # ms)) @ CHR ''}'' # rest
      = member_text (k, v)
          @ (CHR '','' # join_comma (map member_text (m' # ms)) @ CHR ''}'' # rest)"
    by simp
  have ih: "parse_members (put_member (k, v) acc)
      (join_comma (map member_text (m' # ms)) @ CHR ''}'' # rest)
      = Some (fold put_member (m' # ms) (put_member (k, v) acc), rest)"
    by (rule Cons.IH)
  show ?case
    unfolding m t
    by (subst parse_members.simps)
       (simp only: parse_member_text skip_ws_no_ws not_ws_tokens pm ih
          option.case prod.case list.case fold_simps not_False_eq_True refl if_True)
qed

lemma member_text_starts: "\<exists>t. member_text m = dquote # t"
  by (simp add: member_text_def quote_def)

lemma join_comma_starts: "\<exists>t. join_comma (map member_text (m # ms)) = dquote # t"
  using member_text_starts[of m] by (cases ms) auto

lemma JSON_parse_stringify:
  "JSON_parse (JSON_stringify obj ks)
     = Inr (fold put_member (str_props obj (property_list ks)) [])"
proof (cases "str_props obj (property_list ks)")
  case Nil
  then show ?thesis
    by (simp add: JSON_parse_def JSON_stringify_def serialize_members_str_props
        skip_ws_no_ws is_ws_def skip_ws_def)
next
  case (Cons m ms)
  obtain t where t: "join_comma (map member_text (m # ms)) = dquote # t"
    using join_comma_starts by blast
  have nb: "dquote \<noteq> CHR ''}''" by (simp add: dquote_def)
  have ws: "skip_ws (dquote # t @ ''}'') = dquote # t @ ''}''"
    by (simp add: skip_ws_no_ws not_ws_tokens)
  have p: "parse_members [] (dquote # t @ ''}'') = Some (fold put_member (m # ms) [], [])"
    using parse_members_join[of "[]" m ms "[]"] unfolding t by simp
  have e: "skip_ws [] = []" by (simp add: skip_ws_def)
  show ?thesis
    unfolding JSON_parse_def JSON_stringify_def serialize_members_str_props Cons t
    by (simp add: skip_ws_no_ws is_ws_def ws p nb e)
qed

subsection \<open>Key order\<close>


lemma obj_put_fresh: "k \<notin> fst ` set acc \<Longrightarrow> obj_put acc k v = acc @ [(k, v)]"
  by (induction acc) auto

lemma fold_put_member_distinct:
  "distinct (map fst acc @ map fst ms) \<Longrightarrow>
   fold put_member ms acc = acc @ map (\<lambda>m. (fst m, Str (snd m))) ms"
proof (induction ms arbitrary: acc)
  case Nil
  show ?case by simp
next
  case (Cons m ms)
  have fresh: "fst m \<notin> fst ` set acc" using Cons.prems by auto
  have d: "distinct (map fst (acc @ [(fst m, Str (snd m))]) @ map fst ms)"
    using Cons.prems by auto
  show ?case
    using Cons.IH[OF d] by (simp add: put_member_def obj_put_fresh[OF fresh])
qed

lemma str_props_keys: "map fst (str_props obj ks) = filter (\<lambda>k. get_prop obj k \<noteq> Undefined) ks"
  by (induction ks) (auto split: jsval.splits)

lemma distinct_property_list: "distinct (property_list ks)"
  by (simp add: property_list_def)

lemma set_property_list: "set (property_list ks) = set ks"
  by (simp add: property_list_def)

lemma sorted_wrt_remdups: "sorted_wrt P xs \<Longrightarrow> sorted_wrt P (remdups xs)"
  by (induction xs) auto

lemma sorted_property_list: "sorted ks \<Longrightarrow> sorted (property_list ks)"
proof -
  assume "sorted ks"
  then have "sorted_wrt (\<lambda>x y. y \<le> x) (rev ks)" by (simp add: sorted_wrt_rev)
  then have "sorted_wrt (\<lambda>x y. y \<le> x) (remdups (rev ks))" by (rule sorted_wrt_remdups)
  then show ?thesis by (simp add: property_list_def sorted_wrt_rev)
qed

lemma property_list_sort:
  "property_list (sort ks) = sorted_list_of_set (set ks)"
proof -
  have "sorted (property_list (sort ks))" by (simp add: sorted_property_list)
  moreover have "distinct (property_list (sort ks))" by (rule distinct_property_list)
  moreover have "set (property_list (sort ks)) = set ks" by (simp add: set_property_list)
  ultimately show ?thesis
    by (metis sorted_list_of_set.idem_if_sorted_distinct)
qed

lemma get_prop_cong: "map_of r1 = map_of r2 \<Longrightarrow> get_prop r1 = get_prop r2"
  by (auto simp: get_prop_def fun_eq_iff)

lemma str_props_cong: "get_prop r1 = get_prop r2 \<Longrightarrow> str_props r1 ks = str_props r2 ks"
  by (induction ks) (auto split: jsval.splits)

lemma keys_cong: "map_of r1 = map_of r2 \<Longrightarrow> set (map fst r1) = set (map fst r2)"
  by (metis dom_map_of_conv_image_fst set_map)

lemma JSON_stringify_sorted:
  "JSON_stringify r (sort (Object_keys r))
     = CHR ''{'' # join_comma (map member_text (str_props r (sorted_list_of_set (fst ` set r)))) @ ''}''"
  by (simp add: JSON_stringify_def serialize_members_str_props property_list_sort Object_keys_def)

lemma encode_cong: "map_of r1 = map_of r2 \<Longrightarrow> encode r1 = encode r2"
proof -
  assume eq: "map_of r1 = map_of r2"
  have k: "fst ` set r1 = fst ` set r2" using keys_cong[OF eq] by simp
  have p: "str_props r1 = str_props r2"
    using str_props_cong[OF get_prop_cong[OF eq]] by (simp add: fun_eq_iff)
  show ?thesis
    by (simp add: encode_def JSON_stringify_sorted k p)
qed

lemma decode_encode: "decode (Some (encode r)) = Inr (canonical r)"
proof -
  let ?ks = "sorted_list_of_set (fst ` set r)"
  have d: "distinct (map fst [] @ map fst (str_props r ?ks))"
    by (simp add: str_props_keys)
  show ?thesis
    using fold_put_member_distinct[OF d]
    by (simp add: decode_def encode_def Buffer_from_def toString_def JSON_parse_stringify
        property_list_sort Object_keys_def canonical_def)
qed

lemma map_of_str_props:
  "map_of (map (\<lambda>m. (fst m, Str (snd m))) (str_props r ks)) k
     = (if k \<in> set ks then (case get_prop r k of Undefined \<Rightarrow> None | Str v \<Rightarrow> Some (Str v))
        else None)"
  by (induction ks) (auto split: jsval.splits)

lemma map_of_canonical:
  assumes "Undefined \<notin> snd ` set r"
  shows "map_of (canonical r) = map_of r"
proof
  fix k
  show "map_of (canonical r) k = map_of r k"
  proof (cases "map_of r k")
    case None
    then have "k \<notin> fst ` set r" by (simp add: map_of_eq_None_iff)
    then show ?thesis using None by (simp add: canonical_def map_of_str_props)
  next
    case (Some v)
    then have in_r: "(k, v) \<in> set r" by (rule map_of_SomeD)
    then have "v \<noteq> Undefined" using assms by force
    then obtain s where v: "v = Str s" by (cases v) auto
    have "k \<in> fst ` set r" using in_r by force
    then show ?thesis using Some v by (simp add: canonical_def map_of_str_props get_prop_def)
  qed
qed

lemma distinct_canonical: "distinct (map fst (canonical r))"
proof -
  have "map fst (canonical r) = map fst (str_props r (sorted_list_of_set (fst ` set r)))"
    by (simp add: canonical_def comp_def)
  then show ?thesis by (simp add: str_props_keys)
qed

lemma get_prop_canonical: "get_prop (canonical r) k = get_prop r k"
proof -
  have m: "map_of (canonical r) k
      = (if k \<in> fst ` set r
         then (case get_prop r k of Undefined \<Rightarrow> None | Str v \<Rightarrow> Some (Str v)) else None)"
    by (simp add: canonical_def map_of_str_props)
  have c: "get_prop (canonical r) k
      = (case map_of (canonical r) k of None \<Rightarrow> Undefined | Some v \<Rightarrow> v)"
    by (simp only: get_prop_def)
  show ?thesis
  proof (cases "k \<in> fst ` set r")
    case True
    then show ?thesis unfolding c m by (simp split: jsval.splits)
  next
    case False
    then have "map_of r k = None" by (simp add: map_of_eq_None_iff)
    then have "get_prop r k = Undefined" by (simp add: get_prop_def)
    then show ?thesis unfolding c m using False by simp
  qed
qed

lemma property_list_distinct_id:
  assumes "distinct ks"
  shows "property_list ks = ks"
proof -
  have "remdups (rev ks) = rev ks" using assms by (simp add: distinct_remdups_id)
  then show ?thesis unfolding property_list_def by (simp only: rev_rev_ident)
qed

lemma encode_sorted_keys:
  "encode r = Buffer_from (JSON_stringify r (sorted_list_of_set (fst ` set r)))"
proof -
  have "property_list (sorted_list_of_set (fst ` set r)) = sorted_list_of_set (fst ` set r)"
    by (rule property_list_distinct_id) simp
  then show ?thesis
    by (simp add: encode_def JSON_stringify_def property_list_sort Object_keys_def)
qed

section \<open>The rules\<close>

subsection \<open>Addresses of different kinds differ\<close>

text \<open>
  The kind code follows the same prefix in every address, so two addresses of different
  kinds differ whatever the digest is.
\<close>


lemma transfer_neq_ackn [simp]: "getTransferAddress H a \<noteq> getTransferAcknAddress H b"
  by (simp add: getTransferAddress_def getTransferAcknAddress_def)

lemma transfer_neq_approve [simp]: "getTransferAddress H a \<noteq> getTransferApproveAddress H b"
  by (simp add: getTransferAddress_def getTransferApproveAddress_def)

lemma transfer_neq_asset [simp]: "getTransferAddress H a \<noteq> getAssetAddress H b"
  by (simp add: getTransferAddress_def getAssetAddress_def)

lemma regulator_neq_ackn [simp]: "getRegulatorAddress H a \<noteq> getTransferAcknAddress H b"
  by (simp add: getRegulatorAddress_def getTransferAcknAddress_def)

lemma ackn_neq_approve [simp]: "getTransferAcknAddress H a \<noteq> getTransferApproveAddress H b"
  by (simp add: getTransferAcknAddress_def getTransferApproveAddress_def)

lemma asset_neq_ackn [simp]: "getAssetAddress H a \<noteq> getTransferAcknAddress H b"
  by (simp add: getAssetAddress_def getTransferAcknAddress_def)

lemma asset_neq_approve [simp]: "getAssetAddress H a \<noteq> getTransferApproveAddress H b"
  by (simp add: getAssetAddress_def getTransferApproveAddress_def)

lemma asset_neq_regulator [simp]: "getAssetAddress H a \<noteq> getRegulatorAddress H b"
  by (simp add: getAssetAddress_def getRegulatorAddress_def)

lemma approve_neq_regulator [simp]: "getTransferApproveAddress H a \<noteq> getRegulatorAddress H b"
  by (simp add: getTransferApproveAddress_def getRegulatorAddress_def)

subsection \<open>Reads, presence, and the shape of every outcome\<close>

lemma encode_nonempty: "encode r \<noteq> []"
  by (simp add: encode_def Buffer_from_def JSON_stringify_def)

lemma present_Some: "present (Some b) = (b \<noteq> [])"
  by (simp add: present_def)

lemma present_None: "\<not> present None"
  by (simp add: present_def)

lemma state_get_hit: "a \<in> set addrs \<Longrightarrow> state_get addrs c a = store c a"
  by (simp add: state_get_def)

lemma state_get_miss: "a \<notin> set addrs \<Longrightarrow> state_get addrs c a = None"
  by (simp add: state_get_def)

lemma acceptTransfer_throws:
  "acceptTransfer H asset signer c
     = (Inl (InvalidTransaction ''Asset is not being transfered''), c)"
  by (simp add: acceptTransfer_def Let_def state_get_miss present_None)

lemma createAsset_atomic:
  "(\<exists>e. createAsset H a s c = (Inl e, c)) \<or> (\<exists>ws. createAsset H a s c = state_set ws c)"
  by (auto simp: createAsset_def Let_def)

lemma transferAsset_atomic:
  "(\<exists>e. transferAsset H a ow s c = (Inl e, c)) \<or> (\<exists>ws. transferAsset H a ow s c = state_set ws c)"
  by (auto simp: transferAsset_def Let_def split: sum.splits)

lemma acknowledgeTransfer_atomic:
  "(\<exists>e. acknowledgeTransfer H a s c = (Inl e, c)) \<or> (\<exists>ws. acknowledgeTransfer H a s c = state_set ws c)"
  by (auto simp: acknowledgeTransfer_def Let_def split: sum.splits)

lemma rejectTransfer_atomic:
  "(\<exists>e. rejectTransfer H a s c = (Inl e, c)) \<or> (\<exists>ws. rejectTransfer H a s c = state_set ws c)"
  by (auto simp: rejectTransfer_def Let_def split: sum.splits)

lemma acceptTransfer_atomic:
  "(\<exists>e. acceptTransfer H a s c = (Inl e, c)) \<or> (\<exists>ws. acceptTransfer H a s c = state_set ws c)"
  by (simp add: acceptTransfer_throws)

lemma apply_atomic:
  "(\<exists>e. JSONHandler_apply H t c = (Inl e, c)) \<or> (\<exists>ws. JSONHandler_apply H t c = state_set ws c)"
  using createAsset_atomic transferAsset_atomic acknowledgeTransfer_atomic acceptTransfer_atomic
    rejectTransfer_atomic
  by (simp add: JSONHandler_apply_def Let_def)

lemma state_set_not_error: "fst (state_set ws c) \<noteq> Inl e"
  by (simp add: state_set_def)

subsection \<open>The transfer slot (kind 10) stays empty\<close>


lemma acknowledgeTransfer_absent:
  "\<not> present (store c (getTransferAcknAddress H a)) \<Longrightarrow>
   acknowledgeTransfer H a s c = (Inl (InvalidTransaction ''Asset is not being transfered''), c)"
  by (simp add: acknowledgeTransfer_def Let_def state_get_hit)

lemma rejectTransfer_absent:
  "store c (getTransferAddress H a) = None \<Longrightarrow> rejectTransfer H a s c = (Inl TypeError, c)"
  by (simp add: rejectTransfer_def Let_def state_get_hit decode_def)

lemma store_state_set:
  "store (snd (state_set ws c)) = fold put_entry ws (store c)"
  by (simp add: state_set_def)

lemma createAsset_keeps_transfer:
  "store (snd (createAsset H a s c)) (getTransferAddress H x) = store c (getTransferAddress H x)"
  by (simp add: createAsset_def Let_def store_state_set put_entry_def)

lemma transferAsset_keeps_transfer:
  "store (snd (transferAsset H a ow s c)) (getTransferAddress H x) = store c (getTransferAddress H x)"
  by (simp add: transferAsset_def Let_def store_state_set put_entry_def split: sum.splits)

lemma acknowledgeTransfer_keeps_transfer:
  "store (snd (acknowledgeTransfer H a s c)) (getTransferAddress H x)
     = store c (getTransferAddress H x)"
  by (simp add: acknowledgeTransfer_def Let_def store_state_set put_entry_def
      split: sum.splits)

lemma apply_keeps_no_transfer:
  assumes "\<And>x. store c (getTransferAddress H x) = None"
  shows "store (snd (JSONHandler_apply H t c)) (getTransferAddress H x) = None"
  using assms
  by (simp add: JSONHandler_apply_def Let_def createAsset_keeps_transfer
      transferAsset_keeps_transfer acknowledgeTransfer_keeps_transfer acceptTransfer_throws
      rejectTransfer_absent)

lemma run_keeps_no_transfer:
  "(\<And>x. store c (getTransferAddress H x) = None) \<Longrightarrow>
   store (run H ts c) (getTransferAddress H x) = None"
proof (induction ts arbitrary: c)
  case Nil
  then show ?case by simp
next
  case (Cons t ts)
  have "\<And>y. store (snd (JSONHandler_apply H t c)) (getTransferAddress H y) = None"
    using Cons.prems by (rule apply_keeps_no_transfer)
  then show ?case using Cons.IH by simp
qed


lemma written_state_set: "written (snd (state_set ws c)) = written c @ ws"
  by (simp add: state_set_def)

lemma createAsset_log:
  "getTransferAddress H x \<notin> fst ` set (written c) \<Longrightarrow>
   getTransferAddress H x \<notin> fst ` set (written (snd (createAsset H a s c)))"
  by (simp add: createAsset_def Let_def written_state_set)

lemma transferAsset_log:
  "getTransferAddress H x \<notin> fst ` set (written c) \<Longrightarrow>
   getTransferAddress H x \<notin> fst ` set (written (snd (transferAsset H a ow s c)))"
  by (simp add: transferAsset_def Let_def written_state_set split: sum.splits)

lemma acknowledgeTransfer_log:
  "getTransferAddress H x \<notin> fst ` set (written c) \<Longrightarrow>
   getTransferAddress H x \<notin> fst ` set (written (snd (acknowledgeTransfer H a s c)))"
  by (simp add: acknowledgeTransfer_def Let_def written_state_set split: sum.splits)

lemma apply_log:
  assumes "\<And>x. store c (getTransferAddress H x) = None"
    and "getTransferAddress H x \<notin> fst ` set (written c)"
  shows "getTransferAddress H x \<notin> fst ` set (written (snd (JSONHandler_apply H t c)))"
  using assms
  by (simp add: JSONHandler_apply_def Let_def createAsset_log transferAsset_log
      acknowledgeTransfer_log acceptTransfer_throws rejectTransfer_absent)

lemma run_log:
  "(\<And>x. store c (getTransferAddress H x) = None) \<Longrightarrow>
   getTransferAddress H x \<notin> fst ` set (written c) \<Longrightarrow>
   getTransferAddress H x \<notin> fst ` set (written (run H ts c))"
proof (induction ts arbitrary: c)
  case Nil
  then show ?case by simp
next
  case (Cons t ts)
  have a: "\<And>y. store (snd (JSONHandler_apply H t c)) (getTransferAddress H y) = None"
    using Cons.prems(1) by (rule apply_keeps_no_transfer)
  have b: "getTransferAddress H x \<notin> fst ` set (written (snd (JSONHandler_apply H t c)))"
    using Cons.prems by (rule apply_log)
  show ?case using Cons.IH[OF a b] by simp
qed

subsection \<open>Creating an asset\<close>


lemma createAsset_success:
  "createAsset H n A c = (Inr r, c') \<Longrightarrow>
   c' = c\<lparr>store := (store c)(getAssetAddress H n \<mapsto> encode [(''name'', Str n), (''owner'', Str A)]),
          written := written c @ [(getAssetAddress H n, encode [(''name'', Str n), (''owner'', Str A)])]\<rparr>"
  by (auto simp: createAsset_def Let_def state_set_def put_entry_def split: if_splits)

lemma createAsset_present:
  "present (store c (getAssetAddress H n)) \<Longrightarrow>
   createAsset H n B c = (Inl (InvalidTransaction ''Asset name in use''), c)"
  by (simp add: createAsset_def Let_def state_get_hit)

section \<open>The model at work\<close>

text \<open>
  The bytes of two encodings, a text with white space, an escape and a repeated name
  decoded, and the transactions of a whole transfer run from the empty ledger: the asset
  is created, offered and acknowledged, and the regulator's \<open>accept\<close> changes nothing.
\<close>


lemma encode_example:
  "encode [(''owner'', Str ''bob''), (''name'', Str ''widget'')]
     = ''{'' @ [dquote] @ ''name'' @ [dquote] @ '':'' @ [dquote] @ ''widget'' @ [dquote] @ '',''
        @ [dquote] @ ''owner'' @ [dquote] @ '':'' @ [dquote] @ ''bob'' @ [dquote] @ ''}''"
  by (simp add: encode_def Buffer_from_def JSON_stringify_def Object_keys_def property_list_def
      get_prop_def quote_def quote_chars_def quote_char_def dquote_def bslash_def)

lemma encode_escapes_example:
  "encode [(''k'', Str [CHR ''a'', dquote, CHR 0x0A, CHR 0x01, bslash])]
     = ''{'' @ [dquote] @ ''k'' @ [dquote] @ '':'' @ [dquote]
        @ ''a'' @ [bslash, dquote] @ [bslash, CHR ''n''] @ [bslash] @ ''u0001'' @ [bslash, bslash]
        @ [dquote] @ ''}''"
  by (simp add: encode_def Buffer_from_def JSON_stringify_def Object_keys_def property_list_def
      get_prop_def quote_def quote_chars_def quote_char_def dquote_def bslash_def hex_digit_def)

lemma decode_example:
  "decode (Some ('' { '' @ [dquote] @ ''owner'' @ [dquote] @ '' : '' @ [dquote] @ ''x'' @ [dquote]
      @ '' , '' @ [dquote] @ ''owner'' @ [dquote] @ '':'' @ [dquote] @ ''b'' @ [bslash] @ ''u0041''
      @ [dquote] @ ''} ''))
     = Inr [(''owner'', Str ''bA'')]"
proof -
  have c: "char_of (65 :: nat) = CHR ''A''" by code_simp
  show ?thesis
  by (simp add: c decode_def toString_def JSON_parse_def skip_ws_def is_ws_def parse_members.simps
      parse_member_def parse_string_def cons_result_def unescape_def hex4_def hex_val_def
      dquote_def bslash_def)
qed

lemma decode_empty_example: "decode (Some []) = Inl SyntaxError"
  by (simp add: decode_def toString_def JSON_parse_def skip_ws_def)

lemma end_to_end:
  "run H
     [\<lparr>signerPubkey = ''alice'', payload_action = ''create'', payload_asset = ''widget'',
       payload_owner = Undefined\<rparr>,
      \<lparr>signerPubkey = ''alice'', payload_action = ''transfer'', payload_asset = ''widget'',
       payload_owner = Str ''bob''\<rparr>,
      \<lparr>signerPubkey = ''bob'', payload_action = ''acknowledge'', payload_asset = ''widget'',
       payload_owner = Undefined\<rparr>,
      \<lparr>signerPubkey = ''regulator1'', payload_action = ''accept'', payload_asset = ''widget'',
       payload_owner = Undefined\<rparr>] empty_context
   = \<lparr>store =
        [getAssetAddress H ''widget'' \<mapsto> encode [(''name'', Str ''widget''), (''owner'', Str ''alice'')],
         getTransferAcknAddress H ''widget'' \<mapsto> [],
         getTransferApproveAddress H ''widget'' \<mapsto> encode [(''name'', Str ''widget''), (''owner'', Str ''bob'')]],
      written =
        [(getAssetAddress H ''widget'', encode [(''name'', Str ''widget''), (''owner'', Str ''alice'')]),
         (getTransferAcknAddress H ''widget'', encode [(''asset'', Str ''widget''), (''owner'', Str ''bob'')]),
         (getTransferAcknAddress H ''widget'', []),
         (getTransferApproveAddress H ''widget'', encode [(''name'', Str ''widget''), (''owner'', Str ''bob'')])]\<rparr>"
proof -
  have o1: "get_prop (canonical [(''name'', Str ''widget''), (''owner'', Str ''alice'')]) ''owner''
      = Str ''alice''"
    by (simp only: get_prop_canonical) (simp add: get_prop_def)
  have o2: "get_prop (canonical [(''asset'', Str ''widget''), (''owner'', Str ''bob'')]) ''owner''
      = Str ''bob''"
    by (simp only: get_prop_canonical) (simp add: get_prop_def)
  show ?thesis
    by (simp add: JSONHandler_apply_def Let_def createAsset_def transferAsset_def
        acknowledgeTransfer_def acceptTransfer_throws state_get_def state_set_def put_entry_def
        empty_context_def present_def encode_nonempty decode_encode o1 o2)
qed

section \<open>The claims\<close>

text \<open>
  C9. In every state reached from the empty one by any list of transactions, the
  transfer address (kind code 10) of every asset holds nothing and no \<open>state.set\<close> has
  written it. So \<open>rejectTransfer\<close>, which reads that address alone and decodes the entry
  without a presence check, decodes \<open>undefined\<close>: it ends with a TypeError, which is not
  an \<open>InvalidTransaction\<close>, and leaves the state, a pending offer in the acknowledgment
  slot included, as it was.
\<close>

theorem transfer_slot_never_written:
  "store (run H ts empty_context) (getTransferAddress H a) = None \<and>
   getTransferAddress H a \<notin> fst ` set (written (run H ts empty_context)) \<and>
   rejectTransfer H a s (run H ts empty_context) = (Inl TypeError, run H ts empty_context)"
proof -
  have n: "store (run H ts empty_context) (getTransferAddress H a) = None"
    by (rule run_keeps_no_transfer) (simp add: empty_context_def)
  have w: "getTransferAddress H a \<notin> fst ` set (written (run H ts empty_context))"
    by (rule run_log) (simp_all add: empty_context_def)
  show ?thesis using n w rejectTransfer_absent[OF n] by simp
qed

text \<open>
  C8. \<open>acceptTransfer\<close> never succeeds. It reads the acknowledgment address alone, so the
  mapping it gets back has no entry at the transfer address and none at the regulator's
  address; the first presence test fails and the rule throws before its \<open>state.set\<close>,
  for every state, asset and signer.
\<close>

theorem acceptTransfer_never_succeeds:
  "state_get [getTransferAcknAddress H a] c (getTransferAddress H a) = None \<and>
   state_get [getTransferAcknAddress H a] c (getRegulatorAddress H s) = None \<and>
   acceptTransfer H a s c = (Inl (InvalidTransaction ''Asset is not being transfered''), c)"
  by (simp add: state_get_miss acceptTransfer_throws)

text \<open>
  C4. When the acknowledgment slot of an asset holds a record whose owner is the signer,
  \<open>acknowledgeTransfer\<close> succeeds; its one write-set puts a zero-length value at the
  acknowledgment address and the record \<open>{name: asset, owner: signer}\<close> at the approval
  address, and nothing else changes.
\<close>

theorem acknowledgeTransfer_writes:
  assumes "store c (getTransferAcknAddress H a) = Some b"
    and "b \<noteq> []"
    and "decode (Some b) = Inr r"
    and "get_prop r ''owner'' = Str s"
  shows "acknowledgeTransfer H a s c =
     (Inr [getTransferAcknAddress H a, getTransferApproveAddress H a],
      c\<lparr>store := (store c)
           (getTransferAcknAddress H a \<mapsto> [],
            getTransferApproveAddress H a \<mapsto> encode [(''name'', Str a), (''owner'', Str s)]),
        written := written c @
           [(getTransferAcknAddress H a, []),
            (getTransferApproveAddress H a, encode [(''name'', Str a), (''owner'', Str s)])]\<rparr>)"
  using assms
  by (simp add: acknowledgeTransfer_def Let_def state_get_hit present_Some state_set_def
      put_entry_def)

theorem acknowledgeTransfer_writes_witness:
  "acknowledgeTransfer (\<lambda>key. key) ''widget'' ''bob''
     \<lparr>store = [getTransferAcknAddress (\<lambda>key. key) ''widget'' \<mapsto>
                 encode [(''asset'', Str ''widget''), (''owner'', Str ''bob'')]],
      written = []\<rparr> =
     (Inr [getTransferAcknAddress (\<lambda>key. key) ''widget'',
           getTransferApproveAddress (\<lambda>key. key) ''widget''],
      \<lparr>store = [getTransferAcknAddress (\<lambda>key. key) ''widget'' \<mapsto> [],
                 getTransferApproveAddress (\<lambda>key. key) ''widget'' \<mapsto>
                   encode [(''name'', Str ''widget''), (''owner'', Str ''bob'')]],
       written =
         [(getTransferAcknAddress (\<lambda>key. key) ''widget'', []),
          (getTransferApproveAddress (\<lambda>key. key) ''widget'',
           encode [(''name'', Str ''widget''), (''owner'', Str ''bob'')])]\<rparr>)"
proof -
  let ?r = "[(''asset'', Str ''widget''), (''owner'', Str ''bob'')]"
  let ?c = "\<lparr>store = [getTransferAcknAddress (\<lambda>key. key) ''widget'' \<mapsto> encode ?r],
      written = []\<rparr>"
  have h1: "store ?c (getTransferAcknAddress (\<lambda>key. key) ''widget'') = Some (encode ?r)"
    by simp
  have h2: "encode ?r \<noteq> []" by (rule encode_nonempty)
  have h3: "decode (Some (encode ?r)) = Inr (canonical ?r)" by (rule decode_encode)
  have "get_prop ?r ''owner'' = Str ''bob''" by (simp add: get_prop_def)
  then have h4: "get_prop (canonical ?r) ''owner'' = Str ''bob''"
    by (simp only: get_prop_canonical)
  show ?thesis
    using acknowledgeTransfer_writes[OF h1 h2 h3 h4] by simp
qed

text \<open>
  C5. After \<open>createAsset\<close> has succeeded for a name with signer \<open>A\<close>, \<open>createAsset\<close> for the
  same name with any signer \<open>B\<close> fails with \<open>InvalidTransaction('Asset name in use')\<close>
  (the spec's AssetAlreadyExists) and returns the state as it got it: nothing is written,
  and the record stored for the name still decodes to one whose owner is \<open>A\<close>.
\<close>

theorem createAsset_twice:
  assumes "createAsset H n A c = (Inr r, c')"
  shows "createAsset H n B c' = (Inl (InvalidTransaction ''Asset name in use''), c') \<and>
         (\<exists>rec. decode (store c' (getAssetAddress H n)) = Inr rec \<and>
                get_prop rec ''owner'' = Str A)"
proof -
  let ?rec = "[(''name'', Str n), (''owner'', Str A)]"
  have s: "store c' (getAssetAddress H n) = Some (encode ?rec)"
    using createAsset_success[OF assms] by simp
  have p: "present (store c' (getAssetAddress H n))"
    by (simp add: s present_Some encode_nonempty)
  have "get_prop ?rec ''owner'' = Str A" by (simp add: get_prop_def)
  then have o: "get_prop (canonical ?rec) ''owner'' = Str A"
    by (simp only: get_prop_canonical)
  show ?thesis
    using createAsset_present[OF p] o by (simp add: s decode_encode)
qed

theorem createAsset_twice_witness:
  "createAsset (\<lambda>key. key) ''widget'' ''bob''
     (snd (createAsset (\<lambda>key. key) ''widget'' ''alice'' empty_context))
     = (Inl (InvalidTransaction ''Asset name in use''),
        snd (createAsset (\<lambda>key. key) ''widget'' ''alice'' empty_context)) \<and>
   (\<exists>rec. decode (store (snd (createAsset (\<lambda>key. key) ''widget'' ''alice'' empty_context))
                  (getAssetAddress (\<lambda>key. key) ''widget'')) = Inr rec \<and>
          get_prop rec ''owner'' = Str ''alice'')"
proof -
  have "fst (createAsset (\<lambda>key. key) ''widget'' ''alice'' empty_context)
      = Inr [getAssetAddress (\<lambda>key. key) ''widget'']"
    by (simp add: createAsset_def Let_def state_get_def empty_context_def present_None
        state_set_def)
  then have h: "createAsset (\<lambda>key. key) ''widget'' ''alice'' empty_context
      = (Inr [getAssetAddress (\<lambda>key. key) ''widget''],
         snd (createAsset (\<lambda>key. key) ''widget'' ''alice'' empty_context))"
    by (simp add: prod_eq_iff)
  show ?thesis
    by (rule createAsset_twice[OF h])
qed

text \<open>
  C6. \<open>transferAsset\<close> fails with \<open>InvalidTransaction('Asset does not exist')\<close> (the spec's
  AssetNotFound) when the asset's entry is missing or of length zero, and with
  \<open>InvalidTransaction('Only an Asset's owner may transfer it')\<close> (the spec's NotOwner)
  when the entry holds a record whose owner is not the signer. In both cases the state
  comes back unchanged, the log of writes included.
\<close>

theorem transferAsset_rejects:
  "(\<not> present (store c (getAssetAddress H a)) \<longrightarrow>
      transferAsset H a new s c = (Inl (InvalidTransaction ''Asset does not exist''), c)) \<and>
   (\<forall>b r. store c (getAssetAddress H a) = Some b \<and> b \<noteq> [] \<and> decode (Some b) = Inr r \<and>
          get_prop r ''owner'' \<noteq> Str s \<longrightarrow>
      transferAsset H a new s c
        = (Inl (InvalidTransaction ''Only an Asset's owner may transfer it''), c))"
  by (auto simp: transferAsset_def Let_def state_get_hit present_Some)

theorem transferAsset_rejects_witness:
  "transferAsset (\<lambda>key. key) ''widget'' (Str ''bob'') ''mallory'' empty_context
     = (Inl (InvalidTransaction ''Asset does not exist''), empty_context) \<and>
   transferAsset (\<lambda>key. key) ''widget'' (Str ''bob'') ''mallory''
     \<lparr>store = [getAssetAddress (\<lambda>key. key) ''widget'' \<mapsto>
                 encode [(''name'', Str ''widget''), (''owner'', Str ''alice'')]],
      written = []\<rparr>
     = (Inl (InvalidTransaction ''Only an Asset's owner may transfer it''),
        \<lparr>store = [getAssetAddress (\<lambda>key. key) ''widget'' \<mapsto>
                 encode [(''name'', Str ''widget''), (''owner'', Str ''alice'')]],
         written = []\<rparr>)"
proof -
  let ?H = "\<lambda>key :: string. key"
  let ?r = "[(''name'', Str ''widget''), (''owner'', Str ''alice'')]"
  let ?c = "\<lparr>store = [getAssetAddress ?H ''widget'' \<mapsto> encode ?r], written = []\<rparr>"
  have a: "\<not> present (store empty_context (getAssetAddress ?H ''widget''))"
    by (simp add: empty_context_def present_None)
  have "get_prop ?r ''owner'' = Str ''alice''" by (simp add: get_prop_def)
  then have o: "get_prop (canonical ?r) ''owner'' \<noteq> Str ''mallory''"
    by (simp add: get_prop_canonical)
  have b: "store ?c (getAssetAddress ?H ''widget'') = Some (encode ?r) \<and> encode ?r \<noteq> [] \<and>
      decode (Some (encode ?r)) = Inr (canonical ?r) \<and>
      get_prop (canonical ?r) ''owner'' \<noteq> Str ''mallory''"
    using o by (simp add: encode_nonempty decode_encode)
  show ?thesis
    using transferAsset_rejects[of empty_context ?H "''widget''" "Str ''bob''" "''mallory''"] a
      transferAsset_rejects[of ?c ?H "''widget''" "Str ''bob''" "''mallory''"] b
    by blast
qed

text \<open>
  C10. Each of the five rules, and \<open>apply\<close> that dispatches to them, ends in one of two
  ways: it throws, and the state is the one it was given; or it is exactly one
  \<open>state.set\<close> applied to the state it was given. So whenever a rule throws, nothing has
  been written and the ledger is unchanged.
\<close>

theorem rules_atomic:
  assumes "rule \<in> {createAsset H a s, transferAsset H a new s, acknowledgeTransfer H a s,
                    acceptTransfer H a s, rejectTransfer H a s, JSONHandler_apply H t}"
  shows "((\<exists>e. rule c = (Inl e, c)) \<or> (\<exists>ws. rule c = state_set ws c)) \<and>
         (\<forall>e. fst (rule c) = Inl e \<longrightarrow> snd (rule c) = c)"
proof -
  have shape: "(\<exists>e. rule c = (Inl e, c)) \<or> (\<exists>ws. rule c = state_set ws c)"
    using assms createAsset_atomic[of H a s c] transferAsset_atomic[of H a new s c]
      acknowledgeTransfer_atomic[of H a s c] acceptTransfer_atomic[of H a s c]
      rejectTransfer_atomic[of H a s c] apply_atomic[of H t c]
    by auto
  then show ?thesis
    using state_set_not_error by (metis snd_conv)
qed

theorem rules_atomic_witness:
  "fst (rejectTransfer (\<lambda>key. key) ''widget'' ''bob'' empty_context) = Inl TypeError \<and>
   snd (rejectTransfer (\<lambda>key. key) ''widget'' ''bob'' empty_context) = empty_context"
proof -
  let ?H = "\<lambda>key :: string. key"
  have m: "rejectTransfer ?H ''widget'' ''bob'' \<in>
      {createAsset ?H ''widget'' ''bob'', transferAsset ?H ''widget'' Undefined ''bob'',
       acknowledgeTransfer ?H ''widget'' ''bob'', acceptTransfer ?H ''widget'' ''bob'',
       rejectTransfer ?H ''widget'' ''bob'',
       JSONHandler_apply ?H \<lparr>signerPubkey = ''bob'', payload_action = ''reject'',
         payload_asset = ''widget'', payload_owner = Undefined\<rparr>}"
    by simp
  have e: "fst (rejectTransfer ?H ''widget'' ''bob'' empty_context) = Inl TypeError"
    by (simp add: rejectTransfer_def Let_def state_get_def empty_context_def decode_def)
  show ?thesis
    using rules_atomic[OF m, of empty_context] e by simp
qed

text \<open>
  C3. For every record whose fields all hold strings, decoding its encoding succeeds and
  gives a record with the same fields and values (and distinct names), and encoding that
  record again gives the same bytes: \<open>decode(encode(r)) == r\<close> as records, and
  \<open>encode(decode(encode(r))) == encode(r)\<close>.
\<close>

theorem codec_round_trip:
  assumes "Undefined \<notin> snd ` set r"
  shows "\<exists>r'. decode (Some (encode r)) = Inr r' \<and> map_of r' = map_of r \<and>
              distinct (map fst r') \<and> encode r' = encode r"
proof -
  have m: "map_of (canonical r) = map_of r" using assms by (rule map_of_canonical)
  have "encode (canonical r) = encode r" using m by (rule encode_cong)
  then show ?thesis
    using m decode_encode distinct_canonical by blast
qed

theorem codec_round_trip_witness:
  "Undefined \<notin> snd ` set [(''owner'', Str ''bob''), (''name'', Str ''widget'')] \<and>
   (\<exists>r'. decode (Some (encode [(''owner'', Str ''bob''), (''name'', Str ''widget'')])) = Inr r' \<and>
         map_of r' = map_of [(''owner'', Str ''bob''), (''name'', Str ''widget'')] \<and>
         distinct (map fst r') \<and>
         encode r' = encode [(''owner'', Str ''bob''), (''name'', Str ''widget'')])"
proof -
  have h: "Undefined \<notin> snd ` set [(''owner'', Str ''bob''), (''name'', Str ''widget'')]"
    by simp
  show ?thesis
    using h codec_round_trip[OF h] by blast
qed

text \<open>
  C7. Two records with the same field-name/value pairs, in whatever order the fields
  were added, have the same encoding: \<open>encode\<close> serializes the fields in the sorted order
  of their names.
\<close>

theorem encode_order_independent:
  assumes "distinct (map fst r1)" and "distinct (map fst r2)" and "set r1 = set r2"
  shows "encode r1 = encode r2 \<and>
         encode r1 = Buffer_from (JSON_stringify r1 (sorted_list_of_set (fst ` set r1)))"
proof -
  have "map_of r1 = map_of r2"
    using assms by (simp add: map_of_inject_set)
  then have "encode r1 = encode r2" by (rule encode_cong)
  then show ?thesis using encode_sorted_keys[of r1] by simp
qed

theorem encode_order_independent_witness:
  "encode [(''owner'', Str ''bob''), (''name'', Str ''widget'')]
     = encode [(''name'', Str ''widget''), (''owner'', Str ''bob'')] \<and>
   encode [(''owner'', Str ''bob''), (''name'', Str ''widget'')]
     = Buffer_from (JSON_stringify [(''owner'', Str ''bob''), (''name'', Str ''widget'')]
         [''name'', ''owner''])"
proof -
  let ?r1 = "[(''owner'', Str ''bob''), (''name'', Str ''widget'')]"
  let ?r2 = "[(''name'', Str ''widget''), (''owner'', Str ''bob'')]"
  have d1: "distinct (map fst ?r1)" by simp
  have d2: "distinct (map fst ?r2)" by simp
  have e: "set ?r1 = set ?r2" by auto
  have k: "sorted_list_of_set (fst ` set ?r1) = [''name'', ''owner'']"
  proof -
    have "fst ` set ?r1 = set [''name'', ''owner'']" by auto
    moreover have "sorted [''name'', ''owner''] \<and> distinct [''name'', ''owner'']" by simp
    ultimately show ?thesis
      by (metis sorted_list_of_set.idem_if_sorted_distinct)
  qed
  show ?thesis
    by (rule encode_order_independent[OF d1 d2 e, unfolded k])
qed

text \<open>
  C1. The state holds the asset \<open>widget\<close> owned by \<open>alice\<close>, the approval record
  \<open>{name: widget, owner: bob}\<close> and a record for the regulator \<open>regulator1\<close>. The claim
  expects \<open>acceptTransfer\<close> to succeed there and make \<open>bob\<close> the owner. What the code does:
  both records are present, and the rule throws
  \<open>InvalidTransaction('Asset is not being transfered')\<close> and writes nothing.
\<close>

theorem acceptTransfer_rejects_approved_transfer:
  "present (store
      \<lparr>store = [getAssetAddress H ''widget'' \<mapsto>
                  encode [(''name'', Str ''widget''), (''owner'', Str ''alice'')],
                getTransferApproveAddress H ''widget'' \<mapsto>
                  encode [(''name'', Str ''widget''), (''owner'', Str ''bob'')],
                getRegulatorAddress H ''regulator1'' \<mapsto> ''regulator1''],
       written = []\<rparr> (getTransferApproveAddress H ''widget'')) \<and>
   present (store
      \<lparr>store = [getAssetAddress H ''widget'' \<mapsto>
                  encode [(''name'', Str ''widget''), (''owner'', Str ''alice'')],
                getTransferApproveAddress H ''widget'' \<mapsto>
                  encode [(''name'', Str ''widget''), (''owner'', Str ''bob'')],
                getRegulatorAddress H ''regulator1'' \<mapsto> ''regulator1''],
       written = []\<rparr> (getRegulatorAddress H ''regulator1'')) \<and>
   acceptTransfer H ''widget'' ''regulator1''
      \<lparr>store = [getAssetAddress H ''widget'' \<mapsto>
                  encode [(''name'', Str ''widget''), (''owner'', Str ''alice'')],
                getTransferApproveAddress H ''widget'' \<mapsto>
                  encode [(''name'', Str ''widget''), (''owner'', Str ''bob'')],
                getRegulatorAddress H ''regulator1'' \<mapsto> ''regulator1''],
       written = []\<rparr>
     = (Inl (InvalidTransaction ''Asset is not being transfered''),
        \<lparr>store = [getAssetAddress H ''widget'' \<mapsto>
                  encode [(''name'', Str ''widget''), (''owner'', Str ''alice'')],
                getTransferApproveAddress H ''widget'' \<mapsto>
                  encode [(''name'', Str ''widget''), (''owner'', Str ''bob'')],
                getRegulatorAddress H ''regulator1'' \<mapsto> ''regulator1''],
         written = []\<rparr>)"
  by (simp add: acceptTransfer_throws present_Some encode_nonempty)

text \<open>
  C2. On the empty state, where the asset \<open>widget\<close> has no offer of any kind:
  \<open>acknowledgeTransfer\<close> and \<open>acceptTransfer\<close> throw
  \<open>InvalidTransaction('Asset is not being transfered')\<close>, while \<open>rejectTransfer\<close>, whose
  presence test is commented out, throws the TypeError of decoding \<open>undefined\<close>. None of
  them writes.
\<close>

theorem no_pending_outcomes:
  "acknowledgeTransfer H ''widget'' ''bob'' empty_context
     = (Inl (InvalidTransaction ''Asset is not being transfered''), empty_context) \<and>
   acceptTransfer H ''widget'' ''bob'' empty_context
     = (Inl (InvalidTransaction ''Asset is not being transfered''), empty_context) \<and>
   rejectTransfer H ''widget'' ''bob'' empty_context = (Inl TypeError, empty_context)"
proof -
  have a: "\<not> present (store empty_context (getTransferAcknAddress H ''widget''))"
    by (simp add: empty_context_def present_None)
  have r: "store empty_context (getTransferAddress H ''widget'') = None"
    by (simp add: empty_context_def)
  show ?thesis
    by (simp add: acknowledgeTransfer_absent[OF a] acceptTransfer_throws rejectTransfer_absent[OF r])
qed

end
